theory Spec2Isabelle
  imports Main "HOL-Library.Multiset"
begin

section \<open>The data-access module for the user table\<close>

text \<open>
  The module under study is the data-access layer behind the controllers: a lazily
  opened SQLite handle, a transaction wrapper and five accessors over one table,
  \<^verbatim>\<open>users\<close>. The accessors are asynchronous functions that talk to the store through
  four methods of the handle (\<^verbatim>\<open>exec\<close>, \<^verbatim>\<open>run\<close>, \<^verbatim>\<open>get\<close>, \<^verbatim>\<open>all\<close>); each of these either
  resolves with a value or rejects with an error, and changes the store as it goes.

  The embedding has two layers.
  \<^item> The accessors and the transaction wrapper are translated line by line over an
    arbitrary handle, a record of the four methods. Nothing is assumed about what the
    methods do, so the statements about error propagation hold for every store.
  \<^item> One particular handle, \<open>sqlite\<close>, gives the methods the meaning that SQLite gives
    the eight statements of the module on the schema the module creates. The statements
    about stored data are made for this handle.

  Calls are modelled as running to completion one after the other; interleaving of
  several pending calls on the shared handle is outside the model. The handle is taken as
  already opened by \<^verbatim>\<open>initDb\<close>, with the table created.
\<close>

subsection \<open>Values and errors\<close>

text \<open>
  A field of the caller's object at run time: a string, or \<^verbatim>\<open>null\<close>, or absent. The
  declared type of the fields is \<^verbatim>\<open>string\<close>, and of the fields of an update an optional
  \<^verbatim>\<open>string\<close>; the other two values are what \<^verbatim>\<open>??\<close> and the NOT NULL columns react to.
\<close>

datatype jsval = Undefined | Null | Str string

text \<open>The operator \<^verbatim>\<open>a ?? b\<close>: \<open>b\<close> when \<open>a\<close> is \<^verbatim>\<open>null\<close> or \<^verbatim>\<open>undefined\<close>, else \<open>a\<close>.\<close>

fun nullish_coalesce :: "jsval \<Rightarrow> jsval \<Rightarrow> jsval" where
  "nullish_coalesce Undefined b = b"
| "nullish_coalesce Null b = b"
| "nullish_coalesce (Str a) b = Str a"

text \<open>A value interpolated into a template literal.\<close>

fun template :: "jsval \<Rightarrow> string" where
  "template Undefined = ''undefined''"
| "template Null = ''null''"
| "template (Str a) = a"

text \<open>
  Decimal rendering of an integer, as a template literal prints a whole number (of a
  size that JavaScript still prints without an exponent).
\<close>

definition digit :: "nat \<Rightarrow> char" where
  "digit d = ''0123456789'' ! d"

fun decimal :: "nat \<Rightarrow> string" where
  "decimal n = (if n div 10 = 0 then [] else decimal (n div 10)) @ [digit (n mod 10)]"

definition number_text :: "int \<Rightarrow> string" where
  "number_text i = (if 0 \<le> i then decimal (nat i) else CHR ''-'' # decimal (nat (- i)))"

text \<open>
  The errors a call can reject with: the module's two error classes, each with its
  message, and an error of the SQLite driver, which carries a \<^verbatim>\<open>code\<close> property and a
  message.
\<close>

datatype error =
    UserNotFoundError string
  | UserAlreadyExistsError string
  | SqliteError string string

text \<open>The property \<^verbatim>\<open>err.code\<close>; the module's own error classes do not have it.\<close>

fun code :: "error \<Rightarrow> string option" where
  "code (SqliteError c m) = Some c"
| "code (UserNotFoundError m) = None"
| "code (UserAlreadyExistsError m) = None"

subsection \<open>Records of the module\<close>

text \<open>
  The rows of the table. The field \<^verbatim>\<open>id\<close> of the source is written \<open>user_id\<close>, and the
  fields of \<^verbatim>\<open>NewUser\<close> carry the prefix \<open>new\<close>.
\<close>

record User =
  user_id :: int
  username :: string
  email :: string
  password_hash :: string
  created_at :: string

text \<open>
  \<^verbatim>\<open>NewUser\<close> is \<^verbatim>\<open>User\<close> without \<^verbatim>\<open>id\<close> and \<^verbatim>\<open>created_at\<close>; the same record, with fields
  that may be absent, is the \<^verbatim>\<open>Partial<NewUser>\<close> of an update.
\<close>

record NewUser =
  new_username :: jsval
  new_email :: jsval
  new_password_hash :: jsval

text \<open>An input as its type declares it: the three fields are strings.\<close>

fun is_string :: "jsval \<Rightarrow> bool" where
  "is_string (Str a) = True"
| "is_string Null = False"
| "is_string Undefined = False"

definition valid_NewUser :: "NewUser \<Rightarrow> bool" where
  "valid_NewUser user =
     (is_string (new_username user) \<and> is_string (new_email user) \<and>
      is_string (new_password_hash user))"

text \<open>
  What \<^verbatim>\<open>run\<close> resolves with: the id of the inserted row and the number of rows changed.
  The module reads \<^verbatim>\<open>lastID\<close> after an \<^verbatim>\<open>INSERT\<close> only.
\<close>

record RunResult =
  lastID :: int
  changes :: nat

subsection \<open>Asynchronous calls\<close>

text \<open>
  A pending call on a store of type \<open>'s\<close>: run on a store it gives the error it rejects
  with (\<open>Inl\<close>) or the value it resolves with (\<open>Inr\<close>), and the store it leaves.
\<close>

type_synonym ('s, 'a) promise = "'s \<Rightarrow> (error + 'a) \<times> 's"

definition resolve :: "'a \<Rightarrow> ('s, 'a) promise" where
  "resolve x s = (Inr x, s)"

definition throw :: "error \<Rightarrow> ('s, 'a) promise" where
  "throw e s = (Inl e, s)"

text \<open>\<^verbatim>\<open>const x = await m; k(x)\<close>: a rejection of \<open>m\<close> skips the rest.\<close>

definition await :: "('s, 'a) promise \<Rightarrow> ('a \<Rightarrow> ('s, 'b) promise) \<Rightarrow> ('s, 'b) promise" where
  "await m k s = (case m s of (Inl e, s') \<Rightarrow> (Inl e, s') | (Inr x, s') \<Rightarrow> k x s')"

text \<open>\<^verbatim>\<open>try { m } catch (err) { h(err) }\<close>.\<close>

definition try_catch :: "('s, 'a) promise \<Rightarrow> (error \<Rightarrow> ('s, 'a) promise) \<Rightarrow> ('s, 'a) promise" where
  "try_catch m h s = (case m s of (Inl e, s') \<Rightarrow> h e s' | (Inr x, s') \<Rightarrow> (Inr x, s'))"

subsection \<open>The statements and the handle\<close>

text \<open>
  The eight SQL texts of the module, each with the parameters bound to it:
  \<^item> \<^verbatim>\<open>BEGIN\<close>, \<^verbatim>\<open>COMMIT\<close>, \<^verbatim>\<open>ROLLBACK\<close>;
  \<^item> \<^verbatim>\<open>INSERT INTO users (username, email, password_hash) VALUES (?, ?, ?)\<close>;
  \<^item> \<^verbatim>\<open>SELECT * FROM users WHERE id = ?\<close>;
  \<^item> \<^verbatim>\<open>SELECT * FROM users ORDER BY id\<close>;
  \<^item> \<^verbatim>\<open>UPDATE users SET username = ?, email = ?, password_hash = ? WHERE id = ?\<close>;
  \<^item> \<^verbatim>\<open>DELETE FROM users WHERE id = ?\<close>.
\<close>

datatype sql =
    BEGIN
  | COMMIT
  | ROLLBACK
  | INSERT_INTO_users jsval jsval jsval
  | SELECT_users_WHERE_id int
  | SELECT_users_ORDER_BY_id
  | UPDATE_users_WHERE_id jsval jsval jsval int
  | DELETE_FROM_users_WHERE_id int

text \<open>The handle: the four methods of the driver that the module calls.\<close>

record 's Database =
  db_exec :: "sql \<Rightarrow> ('s, unit) promise"
  db_run :: "sql \<Rightarrow> ('s, RunResult) promise"
  db_get :: "sql \<Rightarrow> ('s, User option) promise"
  db_all :: "sql \<Rightarrow> ('s, User list) promise"

subsection \<open>The transaction wrapper and the accessors\<close>

definition withTransaction :: "'s Database \<Rightarrow> ('s, 'a) promise \<Rightarrow> ('s, 'a) promise" where
  "withTransaction db fn =
     await (db_exec db BEGIN) (\<lambda>_.
       try_catch
         (await fn (\<lambda>result.
            await (db_exec db COMMIT) (\<lambda>_.
              resolve result)))
         (\<lambda>err.
            await (db_exec db ROLLBACK) (\<lambda>_.
              throw err)))"

definition already_exists_message :: "NewUser \<Rightarrow> string" where
  "already_exists_message user =
     ''User with username '' @ [CHR 0x22] @ template (new_username user) @ [CHR 0x22] @
     '' or email '' @ [CHR 0x22] @ template (new_email user) @ [CHR 0x22] @
     '' already exists''"

definition createUser :: "'s Database \<Rightarrow> NewUser \<Rightarrow> ('s, User) promise" where
  "createUser db user =
     withTransaction db
       (try_catch
          (await (db_run db (INSERT_INTO_users
                    (new_username user) (new_email user) (new_password_hash user))) (\<lambda>result.
             await (db_get db (SELECT_users_WHERE_id (lastID result))) (\<lambda>newUser.
               case newUser of
                 None \<Rightarrow> throw (UserNotFoundError ''User creation failed unexpectedly'')
               | Some u \<Rightarrow> resolve u)))
          (\<lambda>err.
             if code err = Some ''SQLITE_CONSTRAINT''
             then throw (UserAlreadyExistsError (already_exists_message user))
             else throw err))"

definition not_found_message :: "int \<Rightarrow> string" where
  "not_found_message i = ''User with ID '' @ number_text i @ '' not found''"

definition getUserById :: "'s Database \<Rightarrow> int \<Rightarrow> ('s, User) promise" where
  "getUserById db i =
     await (db_get db (SELECT_users_WHERE_id i)) (\<lambda>user.
       case user of
         None \<Rightarrow> throw (UserNotFoundError (not_found_message i))
       | Some u \<Rightarrow> resolve u)"

definition getAllUsers :: "'s Database \<Rightarrow> ('s, User list) promise" where
  "getAllUsers db = db_all db SELECT_users_ORDER_BY_id"

definition updateUser :: "'s Database \<Rightarrow> int \<Rightarrow> NewUser \<Rightarrow> ('s, User) promise" where
  "updateUser db i updates =
     withTransaction db
       (await (getUserById db i) (\<lambda>current.
          let updated = \<lparr>
                new_username = nullish_coalesce (new_username updates) (Str (username current)),
                new_email = nullish_coalesce (new_email updates) (Str (email current)),
                new_password_hash =
                  nullish_coalesce (new_password_hash updates) (Str (password_hash current)) \<rparr>
          in await (db_run db (UPDATE_users_WHERE_id
                      (new_username updated) (new_email updated) (new_password_hash updated) i))
               (\<lambda>_. getUserById db i)))"

definition deleteUser :: "'s Database \<Rightarrow> int \<Rightarrow> ('s, User) promise" where
  "deleteUser db i =
     withTransaction db
       (await (db_get db (SELECT_users_WHERE_id i)) (\<lambda>user.
          case user of
            None \<Rightarrow> throw (UserNotFoundError (not_found_message i))
          | Some u \<Rightarrow>
              await (db_run db (DELETE_FROM_users_WHERE_id i)) (\<lambda>result.
                if changes result = 0
                then throw (UserNotFoundError ''User creation failed unexpectedly'')
                else resolve u)))"

subsection \<open>SQLite on the table of the module\<close>

text \<open>
  The store behind the handle: the rows of \<^verbatim>\<open>users\<close> in the order they were inserted, the
  counter that \<^verbatim>\<open>AUTOINCREMENT\<close> keeps (the largest id ever assigned), the state to
  return to on \<^verbatim>\<open>ROLLBACK\<close> while a transaction is open, and what \<^verbatim>\<open>datetime('now')\<close>
  gives. Row ids are unbounded integers here; the limits of a 64-bit row id and of a
  JavaScript number are not modelled.

  The methods are given a meaning for the statements that the module sends through
  them. Any other pairing of method and statement is answered with an error; no call of
  an accessor produces one.

  The schema, from \<^verbatim>\<open>initDb\<close>:
  \<^verbatim>\<open>id INTEGER PRIMARY KEY AUTOINCREMENT, username TEXT NOT NULL UNIQUE,
  email TEXT NOT NULL UNIQUE, password_hash TEXT NOT NULL,
  created_at TEXT NOT NULL DEFAULT (datetime('now'))\<close>.
\<close>

record sqlite_store =
  users :: "User list"
  sqlite_sequence :: int
  open_transaction :: "(User list \<times> int) option"
  now :: string

definition constraint_failed :: "string \<Rightarrow> error" where
  "constraint_failed what = SqliteError ''SQLITE_CONSTRAINT'' (''SQLITE_CONSTRAINT: '' @ what)"

definition sqlite_misuse :: error where
  "sqlite_misuse = SqliteError ''SQLITE_MISUSE'' ''SQLITE_MISUSE: statement not used by the module''"

text \<open>A bound parameter as a column value: \<^verbatim>\<open>null\<close> and \<^verbatim>\<open>undefined\<close> are stored as NULL.\<close>

fun column_text :: "jsval \<Rightarrow> string option" where
  "column_text (Str a) = Some a"
| "column_text Null = None"
| "column_text Undefined = None"

text \<open>The id of the next inserted row: one more than the largest id ever in the table.\<close>

definition next_rowid :: "sqlite_store \<Rightarrow> int" where
  "next_rowid s = foldr max (map user_id (users s)) (sqlite_sequence s) + 1"

fun sqlite_exec :: "sql \<Rightarrow> (sqlite_store, unit) promise" where
  "sqlite_exec BEGIN s =
     (case open_transaction s of
        None \<Rightarrow> (Inr (), s\<lparr>open_transaction := Some (users s, sqlite_sequence s)\<rparr>)
      | Some saved \<Rightarrow>
          (Inl (SqliteError ''SQLITE_ERROR''
             ''SQLITE_ERROR: cannot start a transaction within a transaction''), s))"
| "sqlite_exec COMMIT s =
     (case open_transaction s of
        None \<Rightarrow>
          (Inl (SqliteError ''SQLITE_ERROR''
             ''SQLITE_ERROR: cannot commit - no transaction is active''), s)
      | Some saved \<Rightarrow> (Inr (), s\<lparr>open_transaction := None\<rparr>))"
| "sqlite_exec ROLLBACK s =
     (case open_transaction s of
        None \<Rightarrow>
          (Inl (SqliteError ''SQLITE_ERROR''
             ''SQLITE_ERROR: cannot rollback - no transaction is active''), s)
      | Some saved \<Rightarrow>
          (Inr (), s\<lparr>users := fst saved, sqlite_sequence := snd saved,
                     open_transaction := None\<rparr>))"
| "sqlite_exec stmt s = (Inl sqlite_misuse, s)"

text \<open>
  \<^verbatim>\<open>INSERT\<close>, \<^verbatim>\<open>UPDATE\<close> and \<^verbatim>\<open>DELETE\<close>. A statement that fails a constraint changes
  nothing and leaves the transaction open. NOT NULL is checked before UNIQUE, and the
  columns in the order of the schema; TEXT values are compared byte by byte. An
  \<^verbatim>\<open>UPDATE\<close> compares the new values with the rows it does not rewrite.
\<close>

fun sqlite_run :: "sql \<Rightarrow> (sqlite_store, RunResult) promise" where
  "sqlite_run (INSERT_INTO_users u e p) s =
     (case column_text u of
        None \<Rightarrow> (Inl (constraint_failed ''NOT NULL constraint failed: users.username''), s)
      | Some un \<Rightarrow>
     (case column_text e of
        None \<Rightarrow> (Inl (constraint_failed ''NOT NULL constraint failed: users.email''), s)
      | Some em \<Rightarrow>
     (case column_text p of
        None \<Rightarrow> (Inl (constraint_failed ''NOT NULL constraint failed: users.password_hash''), s)
      | Some ph \<Rightarrow>
          if un \<in> set (map username (users s))
          then (Inl (constraint_failed ''UNIQUE constraint failed: users.username''), s)
          else if em \<in> set (map email (users s))
          then (Inl (constraint_failed ''UNIQUE constraint failed: users.email''), s)
          else
            (Inr \<lparr>lastID = next_rowid s, changes = 1\<rparr>,
             s\<lparr>users := users s @
                  [\<lparr>user_id = next_rowid s, username = un, email = em,
                    password_hash = ph, created_at = now s\<rparr>],
               sqlite_sequence := next_rowid s\<rparr>))))"
| "sqlite_run (UPDATE_users_WHERE_id u e p i) s =
     (if i \<notin> set (map user_id (users s)) then (Inr \<lparr>lastID = 0, changes = 0\<rparr>, s)
      else
     (case column_text u of
        None \<Rightarrow> (Inl (constraint_failed ''NOT NULL constraint failed: users.username''), s)
      | Some un \<Rightarrow>
     (case column_text e of
        None \<Rightarrow> (Inl (constraint_failed ''NOT NULL constraint failed: users.email''), s)
      | Some em \<Rightarrow>
     (case column_text p of
        None \<Rightarrow> (Inl (constraint_failed ''NOT NULL constraint failed: users.password_hash''), s)
      | Some ph \<Rightarrow>
          if un \<in> set (map username (filter (\<lambda>r. user_id r \<noteq> i) (users s)))
          then (Inl (constraint_failed ''UNIQUE constraint failed: users.username''), s)
          else if em \<in> set (map email (filter (\<lambda>r. user_id r \<noteq> i) (users s)))
          then (Inl (constraint_failed ''UNIQUE constraint failed: users.email''), s)
          else
            (Inr \<lparr>lastID = 0, changes = length (filter (\<lambda>r. user_id r = i) (users s))\<rparr>,
             s\<lparr>users :=
                  map (\<lambda>r. if user_id r = i
                            then r\<lparr>username := un, email := em, password_hash := ph\<rparr>
                            else r) (users s)\<rparr>)))))"
| "sqlite_run (DELETE_FROM_users_WHERE_id i) s =
     (Inr \<lparr>lastID = 0, changes = length (filter (\<lambda>r. user_id r = i) (users s))\<rparr>,
      s\<lparr>users := filter (\<lambda>r. user_id r \<noteq> i) (users s)\<rparr>)"
| "sqlite_run stmt s = (Inl sqlite_misuse, s)"

fun sqlite_get :: "sql \<Rightarrow> (sqlite_store, User option) promise" where
  "sqlite_get (SELECT_users_WHERE_id i) s = (Inr (find (\<lambda>r. user_id r = i) (users s)), s)"
| "sqlite_get stmt s = (Inl sqlite_misuse, s)"

fun sqlite_all :: "sql \<Rightarrow> (sqlite_store, User list) promise" where
  "sqlite_all SELECT_users_ORDER_BY_id s = (Inr (sort_key user_id (users s)), s)"
| "sqlite_all stmt s = (Inl sqlite_misuse, s)"

definition sqlite :: "sqlite_store Database" where
  "sqlite = \<lparr>db_exec = sqlite_exec, db_run = sqlite_run, db_get = sqlite_get,
             db_all = sqlite_all\<rparr>"

text \<open>
  What the schema guarantees of every store the module can meet between two calls: ids,
  user names and e-mail addresses are each unique among the rows.
\<close>

definition consistent :: "sqlite_store \<Rightarrow> bool" where
  "consistent s =
     (distinct (map user_id (users s)) \<and> distinct (map username (users s)) \<and>
      distinct (map email (users s)))"

text \<open>A store right after \<^verbatim>\<open>initDb\<close> on a new file, at time \<open>t\<close>.\<close>

definition empty_store :: "string \<Rightarrow> sqlite_store" where
  "empty_store t = \<lparr>users = [], sqlite_sequence = 0, open_transaction = None, now = t\<rparr>"

text \<open>When SQLite accepts the \<^verbatim>\<open>INSERT\<close> of the three fields into the table of \<open>s\<close>.\<close>

definition insert_accepted :: "NewUser \<Rightarrow> sqlite_store \<Rightarrow> bool" where
  "insert_accepted user s =
     (case (new_username user, new_email user, new_password_hash user) of
        (Str un, Str em, Str ph) \<Rightarrow>
          un \<notin> set (map username (users s)) \<and> em \<notin> set (map email (users s))
      | _ \<Rightarrow> False)"

text \<open>
  The row an update is specified to leave: for each of the three fields the value the
  caller supplied if there is one, otherwise the value of the current row; the id and
  the creation time as they were. The accessor is compared with it below.
\<close>

definition spec_update :: "NewUser \<Rightarrow> User \<Rightarrow> User" where
  "spec_update updates current =
     current\<lparr>username := (case new_username updates of Str x \<Rightarrow> x | _ \<Rightarrow> username current),
              email := (case new_email updates of Str x \<Rightarrow> x | _ \<Rightarrow> email current),
              password_hash :=
                (case new_password_hash updates of Str x \<Rightarrow> x | _ \<Rightarrow> password_hash current)\<rparr>"

subsection \<open>Stores and handles for the examples\<close>

definition alice :: NewUser where
  "alice = \<lparr>new_username = Str ''alice'', new_email = Str ''a@x.com'',
             new_password_hash = Str ''h1''\<rparr>"

definition alice_row :: User where
  "alice_row = \<lparr>user_id = 1, username = ''alice'', email = ''a@x.com'',
                 password_hash = ''h1'', created_at = ''2024-01-01 00:00:00''\<rparr>"

definition bob_row :: User where
  "bob_row = \<lparr>user_id = 2, username = ''bob'', email = ''b@x.com'',
               password_hash = ''h2'', created_at = ''2024-01-02 00:00:00''\<rparr>"

definition carol_row :: User where
  "carol_row = \<lparr>user_id = 3, username = ''carol'', email = ''c@x.com'',
                 password_hash = ''h3'', created_at = ''2024-01-03 00:00:00''\<rparr>"

text \<open>The store after \<open>alice\<close> was created in an empty one.\<close>

definition alice_store :: sqlite_store where
  "alice_store = \<lparr>users = [alice_row], sqlite_sequence = 1, open_transaction = None,
                   now = ''2024-01-01 00:00:00''\<rparr>"

text \<open>A store with three rows, held in an order that is not the order of their ids.\<close>

definition three_store :: sqlite_store where
  "three_store = \<lparr>users = [carol_row, alice_row, bob_row], sqlite_sequence = 3,
                   open_transaction = None, now = ''2024-01-04 00:00:00''\<rparr>"

definition alice_again :: NewUser where
  "alice_again = \<lparr>new_username = Str ''alice'', new_email = Str ''b@x.com'',
                   new_password_hash = Str ''h2''\<rparr>"

definition nameless :: NewUser where
  "nameless = \<lparr>new_username = Null, new_email = Str ''b@x.com'',
                new_password_hash = Str ''h2''\<rparr>"

text \<open>A store right after \<^verbatim>\<open>BEGIN\<close>.\<close>

definition begun :: "sqlite_store \<Rightarrow> sqlite_store" where
  "begun s = s\<lparr>open_transaction := Some (users s, sqlite_sequence s)\<rparr>"

text \<open>
  SQLite when the disk is full: a statement run through \<^verbatim>\<open>run\<close> fails with
  \<^verbatim>\<open>SQLITE_FULL\<close>, and SQLite rolls the open transaction back by itself, as it may do
  for \<^verbatim>\<open>SQLITE_FULL\<close>, \<^verbatim>\<open>SQLITE_IOERR\<close>, \<^verbatim>\<open>SQLITE_BUSY\<close> and \<^verbatim>\<open>SQLITE_NOMEM\<close>. A
  \<^verbatim>\<open>ROLLBACK\<close> issued afterwards finds no transaction.
\<close>

definition sqlite_full :: "sqlite_store Database" where
  "sqlite_full = sqlite\<lparr>db_run := \<lambda>stmt s.
     (Inl (SqliteError ''SQLITE_FULL'' ''SQLITE_FULL: database or disk is full''),
      case open_transaction s of
        None \<Rightarrow> s
      | Some saved \<Rightarrow>
          s\<lparr>users := fst saved, sqlite_sequence := snd saved, open_transaction := None\<rparr>)\<rparr>"

text \<open>
  SQLite when another connection holds the lock: a statement fails with \<^verbatim>\<open>SQLITE_BUSY\<close>
  and the transaction stays open. The three handles below fail in this way, or with
  another error \<open>e\<close>, at \<^verbatim>\<open>run\<close>, at \<^verbatim>\<open>get\<close> and at \<^verbatim>\<open>COMMIT\<close>.
\<close>

definition database_locked :: error where
  "database_locked = SqliteError ''SQLITE_BUSY'' ''SQLITE_BUSY: database is locked''"

definition sqlite_run_rejects :: "error \<Rightarrow> sqlite_store Database" where
  "sqlite_run_rejects e = sqlite\<lparr>db_run := \<lambda>stmt. throw e\<rparr>"

definition sqlite_get_rejects :: "error \<Rightarrow> sqlite_store Database" where
  "sqlite_get_rejects e = sqlite\<lparr>db_get := \<lambda>stmt. throw e\<rparr>"

definition sqlite_commit_rejects :: "error \<Rightarrow> sqlite_store Database" where
  "sqlite_commit_rejects e =
     sqlite\<lparr>db_exec := \<lambda>stmt. if stmt = COMMIT then throw e else sqlite_exec stmt\<rparr>"

subsection \<open>Sequences of calls\<close>

text \<open>
  What can happen to a store between two moments: a call of one of the five accessors on
  the SQLite handle, or the clock moving on.
\<close>

datatype call =
    CreateUser NewUser
  | GetUserById int
  | GetAllUsers
  | UpdateUser int NewUser
  | DeleteUser int
  | Clock string

fun store_after :: "call \<Rightarrow> sqlite_store \<Rightarrow> sqlite_store" where
  "store_after (CreateUser user) s = snd (createUser sqlite user s)"
| "store_after (GetUserById i) s = snd (getUserById sqlite i s)"
| "store_after GetAllUsers s = snd (getAllUsers sqlite s)"
| "store_after (UpdateUser i updates) s = snd (updateUser sqlite i updates s)"
| "store_after (DeleteUser i) s = snd (deleteUser sqlite i s)"
| "store_after (Clock t) s = s\<lparr>now := t\<rparr>"

text \<open>
  The counter of \<^verbatim>\<open>AUTOINCREMENT\<close> is at least every id in the table: each row got its
  id from an \<^verbatim>\<open>INSERT\<close>, which set the counter to it.
\<close>

definition issued :: "sqlite_store \<Rightarrow> bool" where
  "issued s = (\<forall>r \<in> set (users s). user_id r \<le> sqlite_sequence s)"

definition well_formed :: "sqlite_store \<Rightarrow> bool" where
  "well_formed s = (consistent s \<and> open_transaction s = None \<and> issued s)"

text \<open>The five ways in which one call, made with no transaction open, can leave the store.\<close>

inductive effect :: "sqlite_store \<Rightarrow> sqlite_store \<Rightarrow> bool" where
  unchanged: "effect s s"
| clock: "effect s (s\<lparr>now := t\<rparr>)"
| deleted: "effect s (s\<lparr>users := filter (\<lambda>r. user_id r \<noteq> i) (users s)\<rparr>)"
| updated:
    "i \<in> set (map user_id (users s)) \<Longrightarrow>
     a \<notin> set (map username (filter (\<lambda>r. user_id r \<noteq> i) (users s))) \<Longrightarrow>
     b \<notin> set (map email (filter (\<lambda>r. user_id r \<noteq> i) (users s))) \<Longrightarrow>
     effect s (s\<lparr>users := map (\<lambda>r. if user_id r = i
                                      then r\<lparr>username := a, email := b, password_hash := p\<rparr>
                                      else r) (users s)\<rparr>)"
| inserted:
    "un \<notin> set (map username (users s)) \<Longrightarrow> em \<notin> set (map email (users s)) \<Longrightarrow>
     effect s (s\<lparr>users := users s @
                  [\<lparr>user_id = next_rowid s, username = un, email = em, password_hash = ph,
                    created_at = t\<rparr>],
                sqlite_sequence := next_rowid s\<rparr>)"

subsection \<open>Reasoning about calls\<close>

lemmas promise_defs = resolve_def throw_def await_def try_catch_def

text \<open>The wrapper, case by case on what the three statements and the operation do.\<close>

lemma withTransaction_cases:
  "withTransaction db fn s =
     (case db_exec db BEGIN s of
        (Inl e, s1) \<Rightarrow> (Inl e, s1)
      | (Inr u, s1) \<Rightarrow>
          (case fn s1 of
             (Inr r, s2) \<Rightarrow>
               (case db_exec db COMMIT s2 of
                  (Inr u, s3) \<Rightarrow> (Inr r, s3)
                | (Inl e, s3) \<Rightarrow>
                    (case db_exec db ROLLBACK s3 of
                       (Inr u, s4) \<Rightarrow> (Inl e, s4)
                     | (Inl e', s4) \<Rightarrow> (Inl e', s4)))
           | (Inl e, s2) \<Rightarrow>
               (case db_exec db ROLLBACK s2 of
                  (Inr u, s3) \<Rightarrow> (Inl e, s3)
                | (Inl e', s3) \<Rightarrow> (Inl e', s3))))"
  by (simp add: withTransaction_def promise_defs split: prod.splits sum.splits)

lemma sqlite_sel [simp]:
  "db_exec sqlite = sqlite_exec" "db_run sqlite = sqlite_run"
  "db_get sqlite = sqlite_get" "db_all sqlite = sqlite_all"
  by (simp_all add: sqlite_def)

lemma le_foldr_max: "x \<in> set xs \<Longrightarrow> x \<le> foldr max xs (a::int)"
  by (induction xs) auto

lemma user_id_less_next_rowid: "r \<in> set (users s) \<Longrightarrow> user_id r < next_rowid s"
  using le_foldr_max [of "user_id r" "map user_id (users s)" "sqlite_sequence s"]
  by (simp add: next_rowid_def)

lemma next_rowid_upd [simp]:
  "next_rowid (s\<lparr>open_transaction := x\<rparr>) = next_rowid s"
  "next_rowid (s\<lparr>now := t\<rparr>) = next_rowid s"
  by (simp_all add: next_rowid_def)

lemma find_append_new:
  "(\<And>x. x \<in> set xs \<Longrightarrow> \<not> P x) \<Longrightarrow> P y \<Longrightarrow> find P (xs @ [y]) = Some y"
  by (induction xs) auto

lemma find_new_row:
  "find (\<lambda>r. user_id r = next_rowid s)
     (users s @ [\<lparr>user_id = next_rowid s, username = un, email = em, password_hash = ph,
                  created_at = t\<rparr>])
   = Some \<lparr>user_id = next_rowid s, username = un, email = em, password_hash = ph,
           created_at = t\<rparr>"
  by (rule find_append_new) (use user_id_less_next_rowid in force)+

lemma find_None_ids: "find (\<lambda>r. user_id r = i) xs = None \<longleftrightarrow> i \<notin> set (map user_id xs)"
  by (auto simp: find_None_iff)

lemma find_in_ids: "find (\<lambda>r. user_id r = i) xs = Some u \<Longrightarrow> i \<in> user_id ` set xs"
  by (auto simp: find_Some_iff)

lemma find_filter_out: "find (\<lambda>r. user_id r = i) (filter (\<lambda>r. user_id r \<noteq> i) xs) = None"
  by (simp add: find_None_iff)

lemma find_map_update:
  "find (\<lambda>r. user_id r = i) xs = Some u \<Longrightarrow>
   find (\<lambda>r. user_id r = i)
     (map (\<lambda>r. if user_id r = i then r\<lparr>username := a, email := b, password_hash := c\<rparr> else r) xs)
     = Some (u\<lparr>username := a, email := b, password_hash := c\<rparr>)"
  by (induction xs) (auto split: if_splits)

lemma nullish_text:
  "column_text (nullish_coalesce v (Str c)) = Some (case v of Str x \<Rightarrow> x | _ \<Rightarrow> c)"
  by (cases v) simp_all

subsection \<open>The accessors on SQLite\<close>

lemma getUserById_sqlite:
  "getUserById sqlite i s =
     (case find (\<lambda>r. user_id r = i) (users s) of
        None \<Rightarrow> (Inl (UserNotFoundError (not_found_message i)), s)
      | Some u \<Rightarrow> (Inr u, s))"
  by (simp add: getUserById_def promise_defs split: option.splits)

lemma createUser_sqlite_accepted:
  assumes "open_transaction s = None"
    and "new_username user = Str un" "new_email user = Str em" "new_password_hash user = Str ph"
    and "un \<notin> set (map username (users s))" "em \<notin> set (map email (users s))"
  shows "createUser sqlite user s =
           (Inr \<lparr>user_id = next_rowid s, username = un, email = em, password_hash = ph,
                 created_at = now s\<rparr>,
            s\<lparr>users := users s @
                 [\<lparr>user_id = next_rowid s, username = un, email = em, password_hash = ph,
                   created_at = now s\<rparr>],
              sqlite_sequence := next_rowid s\<rparr>)"
  using assms
  by (simp add: createUser_def withTransaction_cases promise_defs find_new_row)

lemma createUser_sqlite_rejected:
  assumes "open_transaction s = None" and "\<not> insert_accepted user s"
  shows "createUser sqlite user s =
           (Inl (UserAlreadyExistsError (already_exists_message user)), s)"
  using assms
  by (cases "new_username user"; cases "new_email user"; cases "new_password_hash user")
     (auto simp add: insert_accepted_def createUser_def withTransaction_cases promise_defs
        constraint_failed_def)

lemma deleteUser_sqlite_found:
  assumes "open_transaction s = None" and "find (\<lambda>r. user_id r = i) (users s) = Some u"
  shows "deleteUser sqlite i s = (Inr u, s\<lparr>users := filter (\<lambda>r. user_id r \<noteq> i) (users s)\<rparr>)"
proof -
  from assms(2) have "u \<in> set (users s)" "user_id u = i"
    by (auto simp: find_Some_iff)
  then have "filter (\<lambda>r. user_id r = i) (users s) \<noteq> []"
    by (auto simp: filter_empty_conv)
  with assms show ?thesis
    by (simp add: deleteUser_def withTransaction_cases promise_defs)
qed

lemma deleteUser_sqlite_missing:
  assumes "open_transaction s = None" and "find (\<lambda>r. user_id r = i) (users s) = None"
  shows "deleteUser sqlite i s = (Inl (UserNotFoundError (not_found_message i)), s)"
  using assms by (simp add: deleteUser_def withTransaction_cases promise_defs)

lemma updateUser_sqlite_missing:
  assumes "open_transaction s = None" and "find (\<lambda>r. user_id r = i) (users s) = None"
  shows "updateUser sqlite i updates s = (Inl (UserNotFoundError (not_found_message i)), s)"
  using assms by (simp add: updateUser_def withTransaction_cases promise_defs getUserById_sqlite)

lemma updateUser_sqlite_found:
  assumes "open_transaction s = None" and "find (\<lambda>r. user_id r = i) (users s) = Some u"
  shows "updateUser sqlite i updates s =
     (if username (spec_update updates u)
           \<in> set (map username (filter (\<lambda>r. user_id r \<noteq> i) (users s)))
      then (Inl (constraint_failed ''UNIQUE constraint failed: users.username''), s)
      else if email (spec_update updates u)
           \<in> set (map email (filter (\<lambda>r. user_id r \<noteq> i) (users s)))
      then (Inl (constraint_failed ''UNIQUE constraint failed: users.email''), s)
      else (Inr (spec_update updates u),
            s\<lparr>users := map (\<lambda>r. if user_id r = i
                                  then r\<lparr>username := username (spec_update updates u),
                                         email := email (spec_update updates u),
                                         password_hash := password_hash (spec_update updates u)\<rparr>
                                  else r) (users s)\<rparr>))"
  using assms find_in_ids [OF assms(2)]
  by (simp add: updateUser_def withTransaction_cases promise_defs getUserById_sqlite
        nullish_text find_map_update spec_update_def Let_def)

text \<open>A call made while a transaction is open fails at \<^verbatim>\<open>BEGIN\<close>.\<close>

lemma withTransaction_sqlite_nested:
  "open_transaction s = Some saved \<Longrightarrow>
   withTransaction sqlite fn s =
     (Inl (SqliteError ''SQLITE_ERROR''
        ''SQLITE_ERROR: cannot start a transaction within a transaction''), s)"
  by (simp add: withTransaction_cases)

lemma updateUser_sqlite_resolved:
  assumes "updateUser sqlite i updates s = (Inr u', s')"
  shows "open_transaction s = None"
proof (cases "open_transaction s")
  case None then show ?thesis .
next
  case (Some saved)
  with assms show ?thesis
    by (simp add: updateUser_def withTransaction_sqlite_nested)
qed

lemma filter_map_others:
  "filter (\<lambda>r. user_id r \<noteq> i) (map (\<lambda>r. if user_id r = i then f r else r) xs)
   = filter (\<lambda>r. user_id r \<noteq> i) xs" if "\<And>r. user_id (f r) = user_id r"
  using that by (induction xs) auto

lemma createUser_insert_rejected:
  assumes "db_exec db BEGIN s = (Inr (), s1)"
    and "db_run db (INSERT_INTO_users (new_username user) (new_email user)
           (new_password_hash user)) s1 = (Inl e, s2)"
    and "db_exec db ROLLBACK s2 = (Inr (), s3)"
  shows "createUser db user s =
           (Inl (if code e = Some ''SQLITE_CONSTRAINT''
                 then UserAlreadyExistsError (already_exists_message user) else e), s3)"
  using assms by (simp add: createUser_def withTransaction_cases promise_defs)

lemma createUser_readback_rejected:
  assumes "db_exec db BEGIN s = (Inr (), s1)"
    and "db_run db (INSERT_INTO_users (new_username user) (new_email user)
           (new_password_hash user)) s1 = (Inr result, s2)"
    and "db_get db (SELECT_users_WHERE_id (lastID result)) s2 = (Inl e, s3)"
    and "db_exec db ROLLBACK s3 = (Inr (), s4)"
  shows "createUser db user s =
           (Inl (if code e = Some ''SQLITE_CONSTRAINT''
                 then UserAlreadyExistsError (already_exists_message user) else e), s4)"
  using assms by (simp add: createUser_def withTransaction_cases promise_defs)




subsection \<open>Invariants of the store\<close>

lemma store_after_effect:
  assumes "open_transaction s = None"
  shows "effect s (store_after c s)"
proof (cases c)
  case (CreateUser user)
  show ?thesis
  proof (cases "insert_accepted user s")
    case True
    then obtain un em ph where
      f: "new_username user = Str un" "new_email user = Str em" "new_password_hash user = Str ph"
        "un \<notin> set (map username (users s))" "em \<notin> set (map email (users s))"
      by (auto simp: insert_accepted_def split: jsval.splits)
    from createUser_sqlite_accepted [OF assms f] CreateUser inserted [OF f(4,5)] show ?thesis
      by simp
  next
    case False
    from createUser_sqlite_rejected [OF assms False] CreateUser show ?thesis
      by (simp add: unchanged)
  qed
next
  case (GetUserById i)
  then show ?thesis by (simp add: getUserById_sqlite unchanged split: option.splits)
next
  case GetAllUsers
  then show ?thesis by (simp add: getAllUsers_def unchanged)
next
  case (UpdateUser i updates)
  show ?thesis
  proof (cases "find (\<lambda>r. user_id r = i) (users s)")
    case None
    from updateUser_sqlite_missing [OF assms None] UpdateUser show ?thesis
      by (simp add: unchanged)
  next
    case (Some u)
    from find_in_ids [OF Some] have "i \<in> set (map user_id (users s))" by simp
    from updated [OF this] updateUser_sqlite_found [OF assms Some, of updates] UpdateUser
    show ?thesis
      by (simp add: unchanged)
  qed
next
  case (DeleteUser i)
  show ?thesis
  proof (cases "find (\<lambda>r. user_id r = i) (users s)")
    case None
    from deleteUser_sqlite_missing [OF assms None] DeleteUser show ?thesis
      by (simp add: unchanged)
  next
    case (Some u)
    from deleteUser_sqlite_found [OF assms Some] DeleteUser show ?thesis
      by (simp add: deleted)
  qed
next
  case (Clock t)
  then show ?thesis by (simp add: clock)
qed

lemma effect_open_transaction:
  "effect s s' \<Longrightarrow> open_transaction s' = open_transaction s"
  by (induction rule: effect.induct) simp_all

lemma foldr_max_ge: "(a::int) \<le> foldr max xs a"
  by (induction xs) auto

lemma sqlite_sequence_less_next_rowid: "sqlite_sequence s < next_rowid s"
  using foldr_max_ge [of "sqlite_sequence s" "map user_id (users s)"]
  by (simp add: next_rowid_def)

lemma effect_absent_id:
  assumes "effect s s'" and "i \<notin> set (map user_id (users s))" and "i \<le> sqlite_sequence s"
  shows "i \<notin> set (map user_id (users s')) \<and> i \<le> sqlite_sequence s'"
  using assms
proof (induction rule: effect.induct)
  case (inserted un s em ph t)
  with sqlite_sequence_less_next_rowid [of s] show ?case by auto
qed (auto split: if_splits)

lemma fold_store_after:
  assumes "open_transaction s = None" and "i \<notin> set (map user_id (users s))"
    and "i \<le> sqlite_sequence s"
  shows "open_transaction (fold store_after calls s) = None \<and>
         i \<notin> set (map user_id (users (fold store_after calls s))) \<and>
         i \<le> sqlite_sequence (fold store_after calls s)"
  using assms
proof (induction calls arbitrary: s)
  case Nil
  then show ?case by simp
next
  case (Cons c calls)
  from store_after_effect [OF Cons.prems(1)] have e: "effect s (store_after c s)" .
  from effect_open_transaction [OF e] Cons.prems(1)
  have "open_transaction (store_after c s) = None" by simp
  moreover from effect_absent_id [OF e Cons.prems(2,3)]
  have "i \<notin> set (map user_id (users (store_after c s)))"
    "i \<le> sqlite_sequence (store_after c s)" by simp_all
  ultimately show ?case using Cons.IH [of "store_after c s"] by simp
qed

lemma map_update_ids:
  "map user_id
     (map (\<lambda>r. if user_id r = i then r\<lparr>username := a, email := b, password_hash := p\<rparr> else r) xs)
   = map user_id xs"
  by (induction xs) auto

lemma map_update_usernames:
  assumes "distinct (map user_id xs)" and "distinct (map username xs)"
    and "a \<notin> set (map username (filter (\<lambda>r. user_id r \<noteq> i) xs))"
  shows "distinct (map username
     (map (\<lambda>r. if user_id r = i then r\<lparr>username := a, email := b, password_hash := p\<rparr> else r) xs))"
  using assms by (induction xs) (auto split: if_splits simp: rev_image_eqI)

lemma map_update_emails:
  assumes "distinct (map user_id xs)" and "distinct (map email xs)"
    and "b \<notin> set (map email (filter (\<lambda>r. user_id r \<noteq> i) xs))"
  shows "distinct (map email
     (map (\<lambda>r. if user_id r = i then r\<lparr>username := a, email := b, password_hash := p\<rparr> else r) xs))"
  using assms by (induction xs) (auto split: if_splits simp: rev_image_eqI)

lemma effect_well_formed:
  assumes "effect s s'" and "well_formed s"
  shows "well_formed s'"
  using assms
proof (induction rule: effect.induct)
  case (unchanged s)
  then show ?case .
next
  case (clock s t)
  then show ?case by (simp add: well_formed_def consistent_def issued_def)
next
  case (deleted s i)
  then show ?case
    by (simp add: well_formed_def consistent_def issued_def distinct_map_filter)
next
  case (updated i s a b p)
  from updated.prems have d: "distinct (map user_id (users s))"
    "distinct (map username (users s))" "distinct (map email (users s))"
    and o: "open_transaction s = None" "issued s"
    by (simp_all add: well_formed_def consistent_def)
  from map_update_usernames [OF d(1,2) updated.hyps(2)]
    map_update_emails [OF d(1,3) updated.hyps(3)] d(1) o
  show ?case
    unfolding well_formed_def consistent_def issued_def
    by (simp add: map_update_ids del: map_map) (auto split: if_splits)
next
  case (inserted un s em ph t)
  from inserted.prems have d: "distinct (map user_id (users s))"
    "distinct (map username (users s))" "distinct (map email (users s))"
    and o: "open_transaction s = None" "issued s"
    by (simp_all add: well_formed_def consistent_def)
  have "next_rowid s \<notin> set (map user_id (users s))"
    using user_id_less_next_rowid [of _ s] by fastforce
  moreover have "\<forall>r \<in> set (users s). user_id r \<le> next_rowid s"
    using user_id_less_next_rowid [of _ s] by (auto intro: less_imp_le)
  ultimately show ?case
    using d o inserted.hyps
    by (simp add: well_formed_def consistent_def issued_def)
qed

lemma well_formed_empty_store: "well_formed (empty_store t)"
  by (simp add: well_formed_def consistent_def issued_def empty_store_def)

lemma well_formed_fold:
  "well_formed s \<Longrightarrow> well_formed (fold store_after calls s)"
proof (induction calls arbitrary: s)
  case Nil
  then show ?case by simp
next
  case (Cons c calls)
  from Cons.prems have "open_transaction s = None" by (simp add: well_formed_def)
  from effect_well_formed [OF store_after_effect [OF this] Cons.prems]
  show ?case using Cons.IH by simp
qed

text \<open>Every store that calls of the accessors reach from an empty one is well formed.\<close>

lemma reachable_well_formed: "well_formed (fold store_after calls (empty_store t))"
  by (rule well_formed_fold [OF well_formed_empty_store])

lemmas example_defs = alice_def alice_again_def nameless_def alice_row_def bob_row_def
  carol_row_def alice_store_def three_store_def empty_store_def begun_def sqlite_full_def
  database_locked_def sqlite_run_rejects_def sqlite_get_rejects_def sqlite_commit_rejects_def

lemmas store_defs = sqlite_def next_rowid_def constraint_failed_def throw_def

lemmas run_defs = createUser_def updateUser_def deleteUser_def getUserById_def getAllUsers_def
  withTransaction_cases promise_defs sqlite_def next_rowid_def constraint_failed_def
  already_exists_message_def not_found_message_def number_text_def digit_def Let_def
  spec_update_def

section \<open>Properties of the accessors\<close>

text \<open>
  In the statements below \<open>open_transaction s = None\<close> says that the call starts with no
  transaction open on the handle, which is how every call of an accessor starts when
  calls do not overlap. Statements about an arbitrary handle \<open>db\<close> name the stores that
  the statements of the call lead through: \<open>db_exec db BEGIN t = (Inr (), t1)\<close> says that
  \<^verbatim>\<open>BEGIN\<close>, issued on \<open>t\<close>, succeeds and leaves \<open>t1\<close>.
\<close>




text \<open>
  C2. For every valid \<^verbatim>\<open>NewUser\<close> whose user name and e-mail address differ from those
  of all existing users, \<open>createUser\<close> resolves with a \<^verbatim>\<open>User\<close> carrying the three
  supplied fields, the next row id and the store's time, and \<open>getUserById\<close> on the
  returned id, run right after it, resolves with the identical record.
\<close>

theorem createUser_then_getUserById:
  assumes "open_transaction s = None"
    and "valid_NewUser user"
    and "new_username user \<notin> set (map (\<lambda>r. Str (username r)) (users s))"
    and "new_email user \<notin> set (map (\<lambda>r. Str (email r)) (users s))"
  shows "\<exists>u s'. createUser sqlite user s = (Inr u, s') \<and>
           getUserById sqlite (user_id u) s' = (Inr u, s') \<and>
           Str (username u) = new_username user \<and> Str (email u) = new_email user \<and>
           Str (password_hash u) = new_password_hash user \<and>
           user_id u = next_rowid s \<and> created_at u = now s"
proof -
  from assms(2) obtain un em ph where
    f: "new_username user = Str un" "new_email user = Str em" "new_password_hash user = Str ph"
    by (cases "new_username user"; cases "new_email user"; cases "new_password_hash user")
       (auto simp: valid_NewUser_def)
  from f assms(3,4) have
    d: "un \<notin> set (map username (users s))" "em \<notin> set (map email (users s))"
    by auto
  let ?u = "\<lparr>user_id = next_rowid s, username = un, email = em, password_hash = ph,
             created_at = now s\<rparr>"
  let ?s' = "s\<lparr>users := users s @ [?u], sqlite_sequence := next_rowid s\<rparr>"
  have c: "createUser sqlite user s = (Inr ?u, ?s')"
    by (rule createUser_sqlite_accepted [OF assms(1) f d])
  have g: "getUserById sqlite (user_id ?u) ?s' = (Inr ?u, ?s')"
    by (simp add: getUserById_sqlite find_new_row)
  from c g f show ?thesis by auto
qed

text \<open>The first user created in an empty store, and the read that follows.\<close>

theorem createUser_then_getUserById_witness:
  "open_transaction (empty_store ''2024-01-01 00:00:00'') = None \<and> valid_NewUser alice \<and>
   createUser sqlite alice (empty_store ''2024-01-01 00:00:00'') = (Inr alice_row, alice_store) \<and>
   getUserById sqlite 1 alice_store = (Inr alice_row, alice_store)"
proof -
  let ?empty = "empty_store ''2024-01-01 00:00:00''"
  have hyps: "open_transaction ?empty = None" "valid_NewUser alice"
    "new_username alice \<notin> set (map (\<lambda>r. Str (username r)) (users ?empty))"
    "new_email alice \<notin> set (map (\<lambda>r. Str (email r)) (users ?empty))"
    by (simp_all add: empty_store_def alice_def valid_NewUser_def)
  have created: "createUser sqlite alice ?empty = (Inr alice_row, alice_store)"
    by (simp add: example_defs run_defs)
  from createUser_then_getUserById [OF hyps] created
  have "getUserById sqlite (user_id alice_row) alice_store = (Inr alice_row, alice_store)"
    by auto
  with hyps(1,2) created show ?thesis by (simp add: alice_row_def)
qed

text \<open>
  C3. \<open>deleteUser i\<close> rejects with \<^verbatim>\<open>UserNotFoundError\<close> when no row has id \<open>i\<close>. When
  there is one, it resolves with the record exactly as \<open>getUserById i\<close> gave it right
  before, it removes the rows with that id and no other, and \<open>getUserById i\<close> on the
  store it leaves rejects with \<^verbatim>\<open>UserNotFoundError\<close>; so it does after any further calls
  of the accessors, since \<^verbatim>\<open>AUTOINCREMENT\<close> never assigns the id again.
\<close>

theorem deleteUser_returns_row_and_removes_it:
  "(open_transaction s = None \<and> i \<notin> set (map user_id (users s)) \<longrightarrow>
      deleteUser sqlite i s = (Inl (UserNotFoundError (not_found_message i)), s)) \<and>
   (open_transaction s = None \<and> getUserById sqlite i s = (Inr u, s) \<longrightarrow>
      (\<exists>s'. deleteUser sqlite i s = (Inr u, s') \<and>
            getUserById sqlite i s' = (Inl (UserNotFoundError (not_found_message i)), s') \<and>
            users s' = filter (\<lambda>r. user_id r \<noteq> i) (users s) \<and>
            (issued s \<longrightarrow>
               getUserById sqlite i (fold store_after calls s') =
                 (Inl (UserNotFoundError (not_found_message i)), fold store_after calls s'))))"
proof (intro conjI impI)
  assume "open_transaction s = None \<and> i \<notin> set (map user_id (users s))"
  then show "deleteUser sqlite i s = (Inl (UserNotFoundError (not_found_message i)), s)"
    using deleteUser_sqlite_missing [of s i] by (simp add: find_None_ids)
next
  assume a: "open_transaction s = None \<and> getUserById sqlite i s = (Inr u, s)"
  then have f: "find (\<lambda>r. user_id r = i) (users s) = Some u"
    by (auto simp: getUserById_sqlite split: option.splits)
  then have u: "u \<in> set (users s)" "user_id u = i"
    by (auto simp: find_Some_iff)
  let ?s' = "s\<lparr>users := filter (\<lambda>r. user_id r \<noteq> i) (users s)\<rparr>"
  have d: "deleteUser sqlite i s = (Inr u, ?s')"
    using a f by (simp add: deleteUser_sqlite_found)
  have g: "getUserById sqlite i ?s' = (Inl (UserNotFoundError (not_found_message i)), ?s')"
    by (simp add: getUserById_sqlite find_filter_out)
  have later: "getUserById sqlite i (fold store_after calls ?s') =
      (Inl (UserNotFoundError (not_found_message i)), fold store_after calls ?s')"
    if "issued s"
  proof -
    from that u have "i \<le> sqlite_sequence ?s'" by (auto simp: issued_def)
    moreover have "i \<notin> set (map user_id (users ?s'))" by auto
    moreover from a have "open_transaction ?s' = None" by simp
    ultimately have "i \<notin> set (map user_id (users (fold store_after calls ?s')))"
      using fold_store_after [of ?s' i calls] by simp
    then have "find (\<lambda>r. user_id r = i) (users (fold store_after calls ?s')) = None"
      by (auto simp: find_None_iff)
    then show ?thesis
      by (simp add: getUserById_sqlite)
  qed
  from d g later show "\<exists>s'. deleteUser sqlite i s = (Inr u, s') \<and>
            getUserById sqlite i s' = (Inl (UserNotFoundError (not_found_message i)), s') \<and>
            users s' = filter (\<lambda>r. user_id r \<noteq> i) (users s) \<and>
            (issued s \<longrightarrow>
               getUserById sqlite i (fold store_after calls s') =
                 (Inl (UserNotFoundError (not_found_message i)), fold store_after calls s'))"
    by (intro exI [of _ ?s']) simp
qed

text \<open>
  Deleting an id that is absent; deleting the one row of a store; and the id of the
  deleted row after another user has been created, who gets the id 2.
\<close>

theorem deleteUser_returns_row_and_removes_it_witness:
  "deleteUser sqlite 7 alice_store =
     (Inl (UserNotFoundError ''User with ID 7 not found''), alice_store) \<and>
   getUserById sqlite 1 alice_store = (Inr alice_row, alice_store) \<and> issued alice_store \<and>
   deleteUser sqlite 1 alice_store = (Inr alice_row, alice_store\<lparr>users := []\<rparr>) \<and>
   getUserById sqlite 1 (alice_store\<lparr>users := []\<rparr>) =
     (Inl (UserNotFoundError ''User with ID 1 not found''), alice_store\<lparr>users := []\<rparr>) \<and>
   map user_id (users (fold store_after [Clock ''2024-01-02 00:00:00'', CreateUser alice_again]
      (alice_store\<lparr>users := []\<rparr>))) = [2] \<and>
   fst (getUserById sqlite 1
     (fold store_after [Clock ''2024-01-02 00:00:00'', CreateUser alice_again]
        (alice_store\<lparr>users := []\<rparr>))) = Inl (UserNotFoundError ''User with ID 1 not found'')"
proof -
  let ?calls = "[Clock ''2024-01-02 00:00:00'', CreateUser alice_again]"
  let ?gone = "alice_store\<lparr>users := []\<rparr>"
  have messages: "not_found_message 7 = ''User with ID 7 not found''"
    "not_found_message 1 = ''User with ID 1 not found''"
    by (simp_all add: not_found_message_def number_text_def digit_def)
  have hyps: "open_transaction alice_store = None" "7 \<notin> set (map user_id (users alice_store))"
    "issued alice_store"
    by (simp_all add: alice_store_def alice_row_def issued_def)
  have found: "getUserById sqlite 1 alice_store = (Inr alice_row, alice_store)"
    by (simp add: example_defs run_defs)
  have missing: "deleteUser sqlite 7 alice_store =
      (Inl (UserNotFoundError (not_found_message 7)), alice_store)"
    using hyps deleteUser_returns_row_and_removes_it [of alice_store 7, THEN conjunct1]
    by simp
  have deleted: "deleteUser sqlite 1 alice_store = (Inr alice_row, ?gone)"
    by (simp add: example_defs run_defs)
  from hyps found deleted
    deleteUser_returns_row_and_removes_it [of alice_store 1 alice_row ?calls, THEN conjunct2]
  have after: "getUserById sqlite 1 ?gone = (Inl (UserNotFoundError (not_found_message 1)), ?gone)"
    "getUserById sqlite 1 (fold store_after ?calls ?gone) =
       (Inl (UserNotFoundError (not_found_message 1)), fold store_after ?calls ?gone)"
    by auto
  have ids: "map user_id (users (fold store_after ?calls ?gone)) = [2]"
    by (simp add: example_defs run_defs)
  from messages hyps(3) found missing deleted after ids show ?thesis by simp
qed

text \<open>
  C4. For every existing user id, a resolved \<open>updateUser i updates\<close> returns the row that
  \<open>spec_update\<close> describes: each of user name, e-mail address and password hash is the
  supplied value when one is supplied and the prior value otherwise, and the id and the
  creation time are the prior ones. In particular an update that supplies the e-mail
  address alone changes that field alone. The returned row is the one stored under the
  id afterwards, and the rows with another id are as they were. The update does resolve
  when no other row holds the resulting user name or e-mail address.
\<close>

theorem updateUser_overrides_supplied_fields:
  assumes "getUserById sqlite i s = (Inr u, s)"
  shows "(updateUser sqlite i updates s = (Inr u', s') \<longrightarrow>
            u' = spec_update updates u \<and>
            username u' = (case new_username updates of Str x \<Rightarrow> x | Null \<Rightarrow> username u
                            | Undefined \<Rightarrow> username u) \<and>
            email u' = (case new_email updates of Str x \<Rightarrow> x | Null \<Rightarrow> email u
                         | Undefined \<Rightarrow> email u) \<and>
            password_hash u' = (case new_password_hash updates of Str x \<Rightarrow> x
                                 | Null \<Rightarrow> password_hash u | Undefined \<Rightarrow> password_hash u) \<and>
            user_id u' = user_id u \<and> created_at u' = created_at u \<and>
            (new_username updates = Undefined \<and> new_email updates = Str e \<and>
             new_password_hash updates = Undefined \<longrightarrow> u' = u\<lparr>email := e\<rparr>) \<and>
            getUserById sqlite i s' = (Inr u', s') \<and>
            filter (\<lambda>r. user_id r \<noteq> i) (users s') = filter (\<lambda>r. user_id r \<noteq> i) (users s)) \<and>
         (open_transaction s = None \<and>
          username (spec_update updates u)
            \<notin> set (map username (filter (\<lambda>r. user_id r \<noteq> i) (users s))) \<and>
          email (spec_update updates u)
            \<notin> set (map email (filter (\<lambda>r. user_id r \<noteq> i) (users s))) \<longrightarrow>
            (\<exists>s'. updateUser sqlite i updates s = (Inr (spec_update updates u), s')))"
proof (intro conjI impI)
  from assms have f: "find (\<lambda>r. user_id r = i) (users s) = Some u"
    by (auto simp: getUserById_sqlite split: option.splits)
  let ?m = "spec_update updates u"
  let ?rows = "map (\<lambda>r. if user_id r = i
                         then r\<lparr>username := username ?m, email := email ?m,
                                password_hash := password_hash ?m\<rparr>
                         else r) (users s)"
  {
    assume a: "updateUser sqlite i updates s = (Inr u', s')"
    have tx: "open_transaction s = None"
      by (rule updateUser_sqlite_resolved [OF a])
    from a have r: "u' = ?m" "s' = s\<lparr>users := ?rows\<rparr>"
      unfolding updateUser_sqlite_found [OF tx f] by (auto split: if_splits)
    have m: "u\<lparr>username := username ?m, email := email ?m,
               password_hash := password_hash ?m\<rparr> = ?m"
      by (simp add: spec_update_def)
    show "u' = ?m" by (rule r(1))
    show "username u' = (case new_username updates of Str x \<Rightarrow> x | Null \<Rightarrow> username u
                          | Undefined \<Rightarrow> username u)"
      by (simp add: r spec_update_def split: jsval.splits)
    show "email u' = (case new_email updates of Str x \<Rightarrow> x | Null \<Rightarrow> email u
                       | Undefined \<Rightarrow> email u)"
      by (simp add: r spec_update_def split: jsval.splits)
    show "password_hash u' = (case new_password_hash updates of Str x \<Rightarrow> x
                               | Null \<Rightarrow> password_hash u | Undefined \<Rightarrow> password_hash u)"
      by (simp add: r spec_update_def split: jsval.splits)
    show "user_id u' = user_id u" by (simp add: r spec_update_def)
    show "created_at u' = created_at u" by (simp add: r spec_update_def)
    show "getUserById sqlite i s' = (Inr u', s')"
      using find_map_update [OF f, where a = "username ?m" and b = "email ?m"
          and c = "password_hash ?m"]
      by (simp add: r getUserById_sqlite m)
    show "filter (\<lambda>r. user_id r \<noteq> i) (users s') = filter (\<lambda>r. user_id r \<noteq> i) (users s)"
      by (simp add: r filter_map_others)
    {
      assume "new_username updates = Undefined \<and> new_email updates = Str e \<and>
        new_password_hash updates = Undefined"
      then show "u' = u\<lparr>email := e\<rparr>" by (simp add: r spec_update_def)
    }
  }
  {
    assume "open_transaction s = None \<and>
      username ?m \<notin> set (map username (filter (\<lambda>r. user_id r \<noteq> i) (users s))) \<and>
      email ?m \<notin> set (map email (filter (\<lambda>r. user_id r \<noteq> i) (users s)))"
    then show "\<exists>s'. updateUser sqlite i updates s = (Inr ?m, s')"
      using updateUser_sqlite_found [of s i u updates] f by simp
  }
qed

text \<open>The e-mail address of the second of three users is replaced; nothing else moves.\<close>

theorem updateUser_overrides_supplied_fields_witness:
  "getUserById sqlite 2 three_store = (Inr bob_row, three_store) \<and>
   updateUser sqlite 2
     \<lparr>new_username = Undefined, new_email = Str ''bob@y.org'', new_password_hash = Undefined\<rparr>
     three_store =
     (Inr (bob_row\<lparr>email := ''bob@y.org''\<rparr>),
      three_store\<lparr>users := [carol_row, alice_row, bob_row\<lparr>email := ''bob@y.org''\<rparr>]\<rparr>) \<and>
   username (bob_row\<lparr>email := ''bob@y.org''\<rparr>) = ''bob'' \<and>
   password_hash (bob_row\<lparr>email := ''bob@y.org''\<rparr>) = ''h2'' \<and>
   getUserById sqlite 2
     (three_store\<lparr>users := [carol_row, alice_row, bob_row\<lparr>email := ''bob@y.org''\<rparr>]\<rparr>) =
     (Inr (bob_row\<lparr>email := ''bob@y.org''\<rparr>),
      three_store\<lparr>users := [carol_row, alice_row, bob_row\<lparr>email := ''bob@y.org''\<rparr>]\<rparr>)"
proof -
  let ?updates = "\<lparr>new_username = Undefined, new_email = Str ''bob@y.org'',
                    new_password_hash = Undefined\<rparr>"
  let ?row = "bob_row\<lparr>email := ''bob@y.org''\<rparr>"
  let ?store = "three_store\<lparr>users := [carol_row, alice_row, ?row]\<rparr>"
  have found: "getUserById sqlite 2 three_store = (Inr bob_row, three_store)"
    by (simp add: example_defs run_defs)
  have updated: "updateUser sqlite 2 ?updates three_store = (Inr ?row, ?store)"
    by (simp add: example_defs run_defs)
  from updated
    updateUser_overrides_supplied_fields [OF found, of ?updates ?row ?store "''bob@y.org''",
      THEN conjunct1]
  have after: "?row = spec_update ?updates bob_row" "user_id ?row = user_id bob_row"
    "created_at ?row = created_at bob_row" "getUserById sqlite 2 ?store = (Inr ?row, ?store)"
    by blast+
  have kept: "username ?row = ''bob''" "password_hash ?row = ''h2''"
    by (simp_all add: bob_row_def)
  from found updated kept after(4) show ?thesis by blast
qed

text \<open>
  C5. \<open>updateUser i updates\<close> rejects with \<^verbatim>\<open>UserNotFoundError\<close> when no row has id
  \<open>i\<close>. When it resolves, its value is a \<^verbatim>\<open>User\<close>, never an absent value: on SQLite it is
  the row that \<open>getUserById i\<close> finds in the store the call leaves, and on every handle
  it is a row that the handle's \<^verbatim>\<open>get\<close> produced for the id.
\<close>

theorem updateUser_not_found_or_reread_row:
  "(open_transaction s = None \<and> i \<notin> set (map user_id (users s)) \<longrightarrow>
      updateUser sqlite i updates s = (Inl (UserNotFoundError (not_found_message i)), s)) \<and>
   (updateUser sqlite i updates s = (Inr u, s') \<longrightarrow>
      getUserById sqlite i s' = (Inr u, s')) \<and>
   (updateUser db i updates t = (Inr u, t') \<longrightarrow>
      (\<exists>t2 t3. db_get db (SELECT_users_WHERE_id i) t2 = (Inr (Some u), t3)))"
proof (intro conjI impI)
  assume "open_transaction s = None \<and> i \<notin> set (map user_id (users s))"
  then show "updateUser sqlite i updates s = (Inl (UserNotFoundError (not_found_message i)), s)"
    using updateUser_sqlite_missing [of s i updates] by (simp add: find_None_ids)
next
  assume a: "updateUser sqlite i updates s = (Inr u, s')"
  have tx: "open_transaction s = None"
    by (rule updateUser_sqlite_resolved [OF a])
  show "getUserById sqlite i s' = (Inr u, s')"
  proof (cases "find (\<lambda>r. user_id r = i) (users s)")
    case None
    with a tx show ?thesis by (simp add: updateUser_sqlite_missing)
  next
    case (Some cur)
    let ?m = "spec_update updates cur"
    from a have r: "u = ?m"
      "s' = s\<lparr>users := map (\<lambda>r. if user_id r = i
                                   then r\<lparr>username := username ?m, email := email ?m,
                                          password_hash := password_hash ?m\<rparr>
                                   else r) (users s)\<rparr>"
      unfolding updateUser_sqlite_found [OF tx Some] by (auto split: if_splits)
    have m: "cur\<lparr>username := username ?m, email := email ?m,
                 password_hash := password_hash ?m\<rparr> = ?m"
      by (simp add: spec_update_def)
    show ?thesis
      using find_map_update [OF Some, where a = "username ?m" and b = "email ?m"
          and c = "password_hash ?m"]
      by (simp add: r getUserById_sqlite m)
  qed
next
  assume "updateUser db i updates t = (Inr u, t')"
  then show "\<exists>t2 t3. db_get db (SELECT_users_WHERE_id i) t2 = (Inr (Some u), t3)"
    by (auto simp add: updateUser_def withTransaction_cases getUserById_def promise_defs Let_def
        split: prod.splits sum.splits option.splits)
qed

text \<open>An update of an id that is absent, and one that renames the only user.\<close>

theorem updateUser_not_found_or_reread_row_witness:
  "updateUser sqlite 9
     \<lparr>new_username = Str ''zoe'', new_email = Undefined, new_password_hash = Undefined\<rparr>
     alice_store = (Inl (UserNotFoundError ''User with ID 9 not found''), alice_store) \<and>
   updateUser sqlite 1
     \<lparr>new_username = Str ''zoe'', new_email = Undefined, new_password_hash = Undefined\<rparr>
     alice_store =
     (Inr (alice_row\<lparr>username := ''zoe''\<rparr>),
      alice_store\<lparr>users := [alice_row\<lparr>username := ''zoe''\<rparr>]\<rparr>) \<and>
   getUserById sqlite 1 (alice_store\<lparr>users := [alice_row\<lparr>username := ''zoe''\<rparr>]\<rparr>) =
     (Inr (alice_row\<lparr>username := ''zoe''\<rparr>),
      alice_store\<lparr>users := [alice_row\<lparr>username := ''zoe''\<rparr>]\<rparr>)"
proof -
  let ?updates = "\<lparr>new_username = Str ''zoe'', new_email = Undefined,
                    new_password_hash = Undefined\<rparr>"
  let ?row = "alice_row\<lparr>username := ''zoe''\<rparr>"
  let ?store = "alice_store\<lparr>users := [?row]\<rparr>"
  have message: "not_found_message 9 = ''User with ID 9 not found''"
    by (simp add: not_found_message_def number_text_def digit_def)
  have hyps: "open_transaction alice_store = None" "9 \<notin> set (map user_id (users alice_store))"
    by (simp_all add: alice_store_def alice_row_def)
  have missing: "updateUser sqlite 9 ?updates alice_store =
      (Inl (UserNotFoundError (not_found_message 9)), alice_store)"
    using hyps updateUser_not_found_or_reread_row [of alice_store 9 ?updates, THEN conjunct1]
    by simp
  have updated: "updateUser sqlite 1 ?updates alice_store = (Inr ?row, ?store)"
    by (simp add: example_defs run_defs)
  have reread: "getUserById sqlite 1 ?store = (Inr ?row, ?store)"
    using updated
      updateUser_not_found_or_reread_row [of alice_store 1 ?updates ?row ?store,
        THEN conjunct2, THEN conjunct1]
    by simp
  have produced: "\<exists>t2 t3. db_get sqlite (SELECT_users_WHERE_id 1) t2 = (Inr (Some ?row), t3)"
    using updated
      updateUser_not_found_or_reread_row [where db = sqlite and i = 1 and updates = ?updates
        and u = ?row and t = alice_store and t' = ?store, THEN conjunct2, THEN conjunct2]
    by simp
  from message missing updated reread show ?thesis by simp
qed

text \<open>
  C6. \<open>getAllUsers\<close> resolves with every row of the table, each once, in ascending order
  of id, whatever the order in which the table holds them; when the table is empty it
  resolves with the empty list. The store is left as it was.
\<close>

theorem getAllUsers_sorted_by_id:
  "(\<exists>us. getAllUsers sqlite s = (Inr us, s) \<and> sorted (map user_id us) \<and>
         mset us = mset (users s)) \<and>
   (users s = [] \<longrightarrow> getAllUsers sqlite s = (Inr [], s))"
  by (simp add: getAllUsers_def)

text \<open>Three rows held in the order 3, 1, 2 come back in the order 1, 2, 3.\<close>

theorem getAllUsers_sorted_by_id_witness:
  "map user_id (users three_store) = [3, 1, 2] \<and>
   getAllUsers sqlite three_store = (Inr [alice_row, bob_row, carol_row], three_store) \<and>
   sorted (map user_id [alice_row, bob_row, carol_row]) \<and>
   users (empty_store ''2024-01-01 00:00:00'') = [] \<and>
   getAllUsers sqlite (empty_store ''2024-01-01 00:00:00'') =
     (Inr [], empty_store ''2024-01-01 00:00:00'')"
proof -
  let ?empty = "empty_store ''2024-01-01 00:00:00''"
  have held: "map user_id (users three_store) = [3, 1, 2]"
    by (simp add: example_defs)
  have listed: "getAllUsers sqlite three_store =
      (Inr [alice_row, bob_row, carol_row], three_store)"
    by (simp add: example_defs run_defs)
  from listed getAllUsers_sorted_by_id [of three_store, THEN conjunct1]
  have ascending: "sorted (map user_id [alice_row, bob_row, carol_row])"
    by auto
  have none: "users ?empty = []"
    by (simp add: empty_store_def)
  from none getAllUsers_sorted_by_id [of ?empty, THEN conjunct2]
  have listed_none: "getAllUsers sqlite ?empty = (Inr [], ?empty)"
    by simp
  from held listed ascending none listed_none show ?thesis by blast
qed

text \<open>
  C7, amended. \<open>withTransaction db fn\<close> issues \<^verbatim>\<open>BEGIN\<close> and, once that has succeeded,
  runs the operation on the store \<^verbatim>\<open>BEGIN\<close> left.
  \<^item> When the operation resolves, it issues \<^verbatim>\<open>COMMIT\<close> and, when the \<^verbatim>\<open>COMMIT\<close>
    succeeds, resolves with the operation's value.
  \<^item> When the operation rejects, it issues \<^verbatim>\<open>ROLLBACK\<close> and, when the \<^verbatim>\<open>ROLLBACK\<close>
    succeeds, rejects with the operation's error, unchanged.
  \<^item> When \<^verbatim>\<open>BEGIN\<close> fails, it rejects with that error and the operation is not run.
  \<^item> When the operation resolves and \<^verbatim>\<open>COMMIT\<close> fails, it issues \<^verbatim>\<open>ROLLBACK\<close> and,
    when the \<^verbatim>\<open>ROLLBACK\<close> succeeds, rejects with the error of \<^verbatim>\<open>COMMIT\<close>.

  Nothing is said here of a call whose \<^verbatim>\<open>ROLLBACK\<close> fails.
\<close>

theorem withTransaction_brackets_operation:
  "(db_exec db BEGIN s = (Inr (), s1) \<and> fn s1 = (Inr r, s2) \<and>
    db_exec db COMMIT s2 = (Inr (), s3) \<longrightarrow> withTransaction db fn s = (Inr r, s3)) \<and>
   (db_exec db BEGIN s = (Inr (), s1) \<and> fn s1 = (Inl e, s2) \<and>
    db_exec db ROLLBACK s2 = (Inr (), s3) \<longrightarrow> withTransaction db fn s = (Inl e, s3)) \<and>
   (db_exec db BEGIN s = (Inl e, s1) \<longrightarrow> withTransaction db fn s = (Inl e, s1)) \<and>
   (db_exec db BEGIN s = (Inr (), s1) \<and> fn s1 = (Inr r, s2) \<and>
    db_exec db COMMIT s2 = (Inl e, s3) \<and> db_exec db ROLLBACK s3 = (Inr (), s4) \<longrightarrow>
      withTransaction db fn s = (Inl e, s4))"
  by (simp add: withTransaction_cases)

text \<open>
  On SQLite: a read that succeeds inside the bracket, a read that fails and is rolled
  back, a call made while a transaction is open, and a \<^verbatim>\<open>COMMIT\<close> that finds the
  database locked.
\<close>

theorem withTransaction_brackets_operation_witness:
  "db_exec sqlite BEGIN alice_store = (Inr (), begun alice_store) \<and>
   db_exec sqlite COMMIT (begun alice_store) = (Inr (), alice_store) \<and>
   db_exec sqlite ROLLBACK (begun alice_store) = (Inr (), alice_store) \<and>
   withTransaction sqlite (getUserById sqlite 1) alice_store = (Inr alice_row, alice_store) \<and>
   withTransaction sqlite (getUserById sqlite 7) alice_store =
     (Inl (UserNotFoundError ''User with ID 7 not found''), alice_store) \<and>
   withTransaction sqlite (getUserById sqlite 1) (begun alice_store) =
     (Inl (SqliteError ''SQLITE_ERROR''
        ''SQLITE_ERROR: cannot start a transaction within a transaction''), begun alice_store) \<and>
   withTransaction (sqlite_commit_rejects database_locked)
     (getUserById (sqlite_commit_rejects database_locked) 1) alice_store =
     (Inl database_locked, alice_store)"
proof -
  have statements: "db_exec sqlite BEGIN alice_store = (Inr (), begun alice_store)"
    "db_exec sqlite COMMIT (begun alice_store) = (Inr (), alice_store)"
    "db_exec sqlite ROLLBACK (begun alice_store) = (Inr (), alice_store)"
    by (simp_all add: example_defs store_defs)
  have found: "getUserById sqlite 1 (begun alice_store) = (Inr alice_row, begun alice_store)"
    by (simp add: example_defs run_defs)
  have missing: "getUserById sqlite 7 (begun alice_store) =
      (Inl (UserNotFoundError ''User with ID 7 not found''), begun alice_store)"
    by (simp add: example_defs run_defs)
  have found': "getUserById (sqlite_commit_rejects database_locked) 1 (begun alice_store) =
      (Inr alice_row, begun alice_store)"
    by (simp add: example_defs run_defs)
  have committed: "withTransaction sqlite (getUserById sqlite 1) alice_store =
      (Inr alice_row, alice_store)"
    using statements found
      withTransaction_brackets_operation [where db = sqlite and s = alice_store
        and ?s1.0 = "begun alice_store" and fn = "getUserById sqlite 1" and r = alice_row
        and ?s2.0 = "begun alice_store" and ?s3.0 = alice_store, THEN conjunct1]
    by simp
  have rolled_back: "withTransaction sqlite (getUserById sqlite 7) alice_store =
      (Inl (UserNotFoundError ''User with ID 7 not found''), alice_store)"
    using statements missing
      withTransaction_brackets_operation [where db = sqlite and s = alice_store
        and ?s1.0 = "begun alice_store" and fn = "getUserById sqlite 7"
        and ?s2.0 = "begun alice_store" and ?s3.0 = alice_store
        and e = "UserNotFoundError ''User with ID 7 not found''",
        THEN conjunct2, THEN conjunct1]
    by simp
  have nested: "withTransaction sqlite (getUserById sqlite 1) (begun alice_store) =
      (Inl (SqliteError ''SQLITE_ERROR''
         ''SQLITE_ERROR: cannot start a transaction within a transaction''),
       begun alice_store)"
    using withTransaction_brackets_operation [where db = sqlite and s = "begun alice_store"
        and fn = "getUserById sqlite 1" and ?s1.0 = "begun alice_store"
        and e = "SqliteError ''SQLITE_ERROR''
          ''SQLITE_ERROR: cannot start a transaction within a transaction''",
        THEN conjunct2, THEN conjunct2, THEN conjunct1]
    by (simp add: example_defs store_defs)
  have locked: "withTransaction (sqlite_commit_rejects database_locked)
      (getUserById (sqlite_commit_rejects database_locked) 1) alice_store =
      (Inl database_locked, alice_store)"
    using found'
      withTransaction_brackets_operation [where db = "sqlite_commit_rejects database_locked"
        and s = alice_store and ?s1.0 = "begun alice_store"
        and fn = "getUserById (sqlite_commit_rejects database_locked) 1" and r = alice_row
        and ?s2.0 = "begun alice_store" and ?s3.0 = "begun alice_store"
        and ?s4.0 = alice_store and e = database_locked,
        THEN conjunct2, THEN conjunct2, THEN conjunct2]
    by (simp add: example_defs store_defs)
  from statements committed rolled_back nested locked show ?thesis by simp
qed

text \<open>
  Against C7 as it was stated: a failure of the operation that is not raised again. The
  disk is full; \<^verbatim>\<open>BEGIN\<close> succeeds, the \<^verbatim>\<open>INSERT\<close> of the operation fails with
  \<^verbatim>\<open>SQLITE_FULL\<close> and SQLite has rolled the transaction back; the \<^verbatim>\<open>ROLLBACK\<close> of the
  wrapper then fails, and the wrapper rejects with the error of the \<^verbatim>\<open>ROLLBACK\<close> in place
  of \<^verbatim>\<open>SQLITE_FULL\<close>.
\<close>

theorem withTransaction_rollback_failure_counterexample:
  "db_exec sqlite_full BEGIN (empty_store ''2024-01-01 00:00:00'') =
     (Inr (), begun (empty_store ''2024-01-01 00:00:00'')) \<and>
   db_run sqlite_full (INSERT_INTO_users (Str ''alice'') (Str ''a@x.com'') (Str ''h1''))
     (begun (empty_store ''2024-01-01 00:00:00'')) =
     (Inl (SqliteError ''SQLITE_FULL'' ''SQLITE_FULL: database or disk is full''),
      empty_store ''2024-01-01 00:00:00'') \<and>
   db_exec sqlite_full ROLLBACK (empty_store ''2024-01-01 00:00:00'') =
     (Inl (SqliteError ''SQLITE_ERROR''
        ''SQLITE_ERROR: cannot rollback - no transaction is active''),
      empty_store ''2024-01-01 00:00:00'') \<and>
   withTransaction sqlite_full
     (db_run sqlite_full (INSERT_INTO_users (Str ''alice'') (Str ''a@x.com'') (Str ''h1'')))
     (empty_store ''2024-01-01 00:00:00'') =
     (Inl (SqliteError ''SQLITE_ERROR''
        ''SQLITE_ERROR: cannot rollback - no transaction is active''),
      empty_store ''2024-01-01 00:00:00'')"
  by (simp add: example_defs run_defs)

text \<open>
  C8. \<open>updateUser\<close> has no handler for the errors of its \<^verbatim>\<open>UPDATE\<close>: whatever error the
  \<^verbatim>\<open>UPDATE\<close> rejects with is the error of \<open>updateUser\<close>, once the \<^verbatim>\<open>ROLLBACK\<close> of the
  wrapper has succeeded. On SQLite, when the update supplies the user name or the e-mail
  address of a row with another id, \<open>updateUser\<close> rejects with the driver's error of code
  \<^verbatim>\<open>SQLITE_CONSTRAINT\<close>, not with \<^verbatim>\<open>UserAlreadyExistsError\<close>, and leaves the store as it
  was.
\<close>

theorem updateUser_constraint_not_remapped:
  "(db_exec db BEGIN t = (Inr (), t1) \<and> getUserById db i t1 = (Inr current, t2) \<and>
    db_run db (UPDATE_users_WHERE_id
       (nullish_coalesce (new_username updates) (Str (username current)))
       (nullish_coalesce (new_email updates) (Str (email current)))
       (nullish_coalesce (new_password_hash updates) (Str (password_hash current))) i) t2
      = (Inl e, t3) \<and>
    db_exec db ROLLBACK t3 = (Inr (), t4) \<longrightarrow>
      updateUser db i updates t = (Inl e, t4)) \<and>
   (open_transaction s = None \<and> getUserById sqlite j s = (Inr u, s) \<and>
    r \<in> set (users s) \<and> user_id r \<noteq> j \<and>
    (new_username updates = Str (username r) \<or> new_email updates = Str (email r)) \<longrightarrow>
      (\<exists>m. updateUser sqlite j updates s = (Inl (SqliteError ''SQLITE_CONSTRAINT'' m), s)))"
proof (intro conjI impI)
  assume "db_exec db BEGIN t = (Inr (), t1) \<and> getUserById db i t1 = (Inr current, t2) \<and>
    db_run db (UPDATE_users_WHERE_id
       (nullish_coalesce (new_username updates) (Str (username current)))
       (nullish_coalesce (new_email updates) (Str (email current)))
       (nullish_coalesce (new_password_hash updates) (Str (password_hash current))) i) t2
      = (Inl e, t3) \<and>
    db_exec db ROLLBACK t3 = (Inr (), t4)"
  then show "updateUser db i updates t = (Inl e, t4)"
    by (simp add: updateUser_def withTransaction_cases promise_defs Let_def)
next
  assume a: "open_transaction s = None \<and> getUserById sqlite j s = (Inr u, s) \<and>
    r \<in> set (users s) \<and> user_id r \<noteq> j \<and>
    (new_username updates = Str (username r) \<or> new_email updates = Str (email r))"
  then have f: "find (\<lambda>r. user_id r = j) (users s) = Some u"
    by (auto simp: getUserById_sqlite split: option.splits)
  from a have tx: "open_transaction s = None" by simp
  from a have "username (spec_update updates u)
                 \<in> set (map username (filter (\<lambda>r. user_id r \<noteq> j) (users s))) \<or>
               email (spec_update updates u)
                 \<in> set (map email (filter (\<lambda>r. user_id r \<noteq> j) (users s)))"
    by (auto simp: spec_update_def)
  then show "\<exists>m. updateUser sqlite j updates s = (Inl (SqliteError ''SQLITE_CONSTRAINT'' m), s)"
    unfolding updateUser_sqlite_found [OF tx f] by (auto simp: constraint_failed_def)
qed

text \<open>
  The second of three users is renamed to the name of the first: the driver's error
  comes out. So does the error of a locked database.
\<close>

theorem updateUser_constraint_not_remapped_witness:
  "getUserById sqlite 2 three_store = (Inr bob_row, three_store) \<and>
   alice_row \<in> set (users three_store) \<and>
   updateUser sqlite 2
     \<lparr>new_username = Str ''alice'', new_email = Undefined, new_password_hash = Undefined\<rparr>
     three_store =
     (Inl (SqliteError ''SQLITE_CONSTRAINT''
        ''SQLITE_CONSTRAINT: UNIQUE constraint failed: users.username''), three_store) \<and>
   updateUser (sqlite_run_rejects database_locked) 2
     \<lparr>new_username = Str ''bobby'', new_email = Undefined, new_password_hash = Undefined\<rparr>
     three_store = (Inl database_locked, three_store)"
proof -
  let ?rename = "\<lparr>new_username = Str ''alice'', new_email = Undefined,
                   new_password_hash = Undefined\<rparr>"
  let ?bobby = "\<lparr>new_username = Str ''bobby'', new_email = Undefined,
                  new_password_hash = Undefined\<rparr>"
  have found: "getUserById sqlite 2 three_store = (Inr bob_row, three_store)"
    "getUserById sqlite 2 (begun three_store) = (Inr bob_row, begun three_store)"
    "getUserById (sqlite_run_rejects database_locked) 2 (begun three_store) =
       (Inr bob_row, begun three_store)"
    by (simp_all add: example_defs run_defs)
  have other: "alice_row \<in> set (users three_store)" "user_id alice_row \<noteq> 2"
    "new_username ?rename = Str (username alice_row)"
    by (simp_all add: example_defs)
  have general: "updateUser sqlite 2 ?rename three_store =
      (Inl (SqliteError ''SQLITE_CONSTRAINT''
         ''SQLITE_CONSTRAINT: UNIQUE constraint failed: users.username''), three_store)"
    using found(2)
      updateUser_constraint_not_remapped [where db = sqlite and t = three_store
        and ?t1.0 = "begun three_store" and i = 2 and current = bob_row
        and ?t2.0 = "begun three_store" and updates = ?rename
        and e = "SqliteError ''SQLITE_CONSTRAINT''
          ''SQLITE_CONSTRAINT: UNIQUE constraint failed: users.username''"
        and ?t3.0 = "begun three_store" and ?t4.0 = three_store, THEN conjunct1]
    by (simp add: example_defs store_defs)
  have on_sqlite: "\<exists>m. updateUser sqlite 2 ?rename three_store =
      (Inl (SqliteError ''SQLITE_CONSTRAINT'' m), three_store)"
    using found(1) other
      updateUser_constraint_not_remapped [where s = three_store and j = 2 and u = bob_row
        and r = alice_row and updates = ?rename, THEN conjunct2]
    by (simp add: three_store_def)
  have locked: "updateUser (sqlite_run_rejects database_locked) 2 ?bobby three_store =
      (Inl database_locked, three_store)"
    using found(3)
      updateUser_constraint_not_remapped [where db = "sqlite_run_rejects database_locked"
        and t = three_store and ?t1.0 = "begun three_store" and i = 2 and current = bob_row
        and ?t2.0 = "begun three_store" and updates = ?bobby and e = database_locked
        and ?t3.0 = "begun three_store" and ?t4.0 = three_store, THEN conjunct1]
    by (simp add: example_defs store_defs)
  from found(1) other(1) general locked show ?thesis by simp
qed

text \<open>
  C9. \<open>createUser\<close> turns every error of code \<^verbatim>\<open>SQLITE_CONSTRAINT\<close> raised inside its
  transaction body into \<^verbatim>\<open>UserAlreadyExistsError\<close>, once the \<^verbatim>\<open>ROLLBACK\<close> of the wrapper
  has succeeded: an error of the \<^verbatim>\<open>INSERT\<close>, whichever constraint failed, and an error
  of the read-back as well. On SQLite, an \<^verbatim>\<open>INSERT\<close> with a field that is \<^verbatim>\<open>null\<close> or
  absent fails the NOT NULL constraint of its column, and \<open>createUser\<close> rejects with
  \<^verbatim>\<open>UserAlreadyExistsError\<close> although no such user need exist.
\<close>

theorem createUser_remaps_every_constraint_failure:
  "(db_exec db BEGIN t = (Inr (), t1) \<and>
    db_run db (INSERT_INTO_users (new_username user) (new_email user)
       (new_password_hash user)) t1 = (Inl e, t2) \<and>
    code e = Some ''SQLITE_CONSTRAINT'' \<and>
    db_exec db ROLLBACK t2 = (Inr (), t3) \<longrightarrow>
      createUser db user t = (Inl (UserAlreadyExistsError (already_exists_message user)), t3)) \<and>
   (db_exec db BEGIN t = (Inr (), t1) \<and>
    db_run db (INSERT_INTO_users (new_username user) (new_email user)
       (new_password_hash user)) t1 = (Inr result, t2) \<and>
    db_get db (SELECT_users_WHERE_id (lastID result)) t2 = (Inl e, t3) \<and>
    code e = Some ''SQLITE_CONSTRAINT'' \<and>
    db_exec db ROLLBACK t3 = (Inr (), t4) \<longrightarrow>
      createUser db user t = (Inl (UserAlreadyExistsError (already_exists_message user)), t4)) \<and>
   (open_transaction s = None \<and>
    (new_username user \<in> {Null, Undefined} \<or> new_email user \<in> {Null, Undefined} \<or>
     new_password_hash user \<in> {Null, Undefined}) \<longrightarrow>
      createUser sqlite user s = (Inl (UserAlreadyExistsError (already_exists_message user)), s))"
proof (intro conjI impI)
  assume "db_exec db BEGIN t = (Inr (), t1) \<and>
    db_run db (INSERT_INTO_users (new_username user) (new_email user)
       (new_password_hash user)) t1 = (Inl e, t2) \<and>
    code e = Some ''SQLITE_CONSTRAINT'' \<and>
    db_exec db ROLLBACK t2 = (Inr (), t3)"
  then show "createUser db user t = (Inl (UserAlreadyExistsError (already_exists_message user)), t3)"
    using createUser_insert_rejected [of db t t1 user e t2 t3] by simp
next
  assume "db_exec db BEGIN t = (Inr (), t1) \<and>
    db_run db (INSERT_INTO_users (new_username user) (new_email user)
       (new_password_hash user)) t1 = (Inr result, t2) \<and>
    db_get db (SELECT_users_WHERE_id (lastID result)) t2 = (Inl e, t3) \<and>
    code e = Some ''SQLITE_CONSTRAINT'' \<and>
    db_exec db ROLLBACK t3 = (Inr (), t4)"
  then show "createUser db user t = (Inl (UserAlreadyExistsError (already_exists_message user)), t4)"
    using createUser_readback_rejected [of db t t1 user result t2 e t3 t4] by simp
next
  assume a: "open_transaction s = None \<and>
    (new_username user \<in> {Null, Undefined} \<or> new_email user \<in> {Null, Undefined} \<or>
     new_password_hash user \<in> {Null, Undefined})"
  then have "\<not> insert_accepted user s"
    by (auto simp: insert_accepted_def split: jsval.splits)
  with a show "createUser sqlite user s =
      (Inl (UserAlreadyExistsError (already_exists_message user)), s)"
    by (simp add: createUser_sqlite_rejected)
qed

text \<open>
  A duplicate user name, a read-back that rejects with the constraint code, and a user
  name that is \<^verbatim>\<open>null\<close> in an empty table.
\<close>

theorem createUser_remaps_every_constraint_failure_witness:
  "createUser sqlite alice_again alice_store =
     (Inl (UserAlreadyExistsError
        (''User with username '' @ [CHR 0x22] @ ''alice'' @ [CHR 0x22] @ '' or email '' @
         [CHR 0x22] @ ''b@x.com'' @ [CHR 0x22] @ '' already exists'')), alice_store) \<and>
   createUser
     (sqlite_get_rejects (SqliteError ''SQLITE_CONSTRAINT'' ''SQLITE_CONSTRAINT: constraint failed''))
     alice (empty_store ''2024-01-01 00:00:00'') =
     (Inl (UserAlreadyExistsError
        (''User with username '' @ [CHR 0x22] @ ''alice'' @ [CHR 0x22] @ '' or email '' @
         [CHR 0x22] @ ''a@x.com'' @ [CHR 0x22] @ '' already exists'')),
      empty_store ''2024-01-01 00:00:00'') \<and>
   createUser sqlite nameless (empty_store ''2024-01-01 00:00:00'') =
     (Inl (UserAlreadyExistsError
        (''User with username '' @ [CHR 0x22] @ ''null'' @ [CHR 0x22] @ '' or email '' @
         [CHR 0x22] @ ''b@x.com'' @ [CHR 0x22] @ '' already exists'')),
      empty_store ''2024-01-01 00:00:00'')"
proof -
  let ?empty = "empty_store ''2024-01-01 00:00:00''"
  let ?created = "(begun ?empty)\<lparr>users := [alice_row], sqlite_sequence := 1\<rparr>"
  let ?failed = "SqliteError ''SQLITE_CONSTRAINT'' ''SQLITE_CONSTRAINT: constraint failed''"
  have at_insert: "createUser sqlite alice_again alice_store =
      (Inl (UserAlreadyExistsError (already_exists_message alice_again)), alice_store)"
    using createUser_remaps_every_constraint_failure [where db = sqlite and t = alice_store
        and ?t1.0 = "begun alice_store" and user = alice_again
        and ?t2.0 = "begun alice_store" and ?t3.0 = alice_store
        and e = "SqliteError ''SQLITE_CONSTRAINT''
          ''SQLITE_CONSTRAINT: UNIQUE constraint failed: users.username''", THEN conjunct1]
    by (simp add: example_defs store_defs)
  have at_readback: "createUser (sqlite_get_rejects ?failed) alice ?empty =
      (Inl (UserAlreadyExistsError (already_exists_message alice)), ?empty)"
    using createUser_remaps_every_constraint_failure [where db = "sqlite_get_rejects ?failed"
        and t = ?empty and ?t1.0 = "begun ?empty" and user = alice
        and result = "\<lparr>lastID = 1, changes = 1\<rparr>" and ?t2.0 = ?created
        and ?t3.0 = ?created and ?t4.0 = ?empty and e = ?failed,
        THEN conjunct2, THEN conjunct1]
    by (simp add: example_defs store_defs)
  have not_null: "createUser sqlite nameless ?empty =
      (Inl (UserAlreadyExistsError (already_exists_message nameless)), ?empty)"
    using createUser_remaps_every_constraint_failure [where s = ?empty and user = nameless,
        THEN conjunct2, THEN conjunct2]
    by (simp add: empty_store_def nameless_def)
  from at_insert at_readback not_null show ?thesis
    by (simp add: already_exists_message_def alice_def alice_again_def nameless_def)
qed

text \<open>
  C10. When each of the three fields of \<open>updates\<close> is absent or \<^verbatim>\<open>null\<close>, the \<^verbatim>\<open>UPDATE\<close>
  that \<open>updateUser\<close> issues writes the user name, e-mail address and password hash of
  the row it has just read. On SQLite, for an existing user id and a table that keeps the
  uniqueness constraints of its schema, the call resolves with the row as it was before
  the call and leaves the whole store as it was.
\<close>

theorem updateUser_without_fields_is_identity:
  assumes "new_username updates \<in> {Undefined, Null}"
    and "new_email updates \<in> {Undefined, Null}"
    and "new_password_hash updates \<in> {Undefined, Null}"
  shows "updateUser db j updates =
           withTransaction db
             (await (getUserById db j) (\<lambda>current.
                await (db_run db (UPDATE_users_WHERE_id (Str (username current))
                         (Str (email current)) (Str (password_hash current)) j))
                  (\<lambda>_. getUserById db j))) \<and>
         (consistent s \<and> open_transaction s = None \<and> getUserById sqlite i s = (Inr u, s) \<longrightarrow>
            updateUser sqlite i updates s = (Inr u, s))"
proof (intro conjI impI)
  from assms have n: "\<And>c. nullish_coalesce (new_username updates) c = c"
    "\<And>c. nullish_coalesce (new_email updates) c = c"
    "\<And>c. nullish_coalesce (new_password_hash updates) c = c"
    by auto
  show "updateUser db j updates =
           withTransaction db
             (await (getUserById db j) (\<lambda>current.
                await (db_run db (UPDATE_users_WHERE_id (Str (username current))
                         (Str (email current)) (Str (password_hash current)) j))
                  (\<lambda>_. getUserById db j)))"
    by (simp add: updateUser_def n Let_def)
next
  assume a: "consistent s \<and> open_transaction s = None \<and> getUserById sqlite i s = (Inr u, s)"
  then have f: "find (\<lambda>r. user_id r = i) (users s) = Some u"
    by (auto simp: getUserById_sqlite split: option.splits)
  then have u: "u \<in> set (users s)" "user_id u = i"
    by (auto simp: find_Some_iff)
  from assms have m: "spec_update updates u = u"
    by (auto simp: spec_update_def)
  from a have d: "inj_on user_id (set (users s))" "inj_on username (set (users s))"
    "inj_on email (set (users s))"
    by (simp_all add: consistent_def distinct_map)
  have nu: "username u \<notin> set (map username (filter (\<lambda>r. user_id r \<noteq> i) (users s)))"
    using d(2) u by (auto dest: inj_onD)
  have ne: "email u \<notin> set (map email (filter (\<lambda>r. user_id r \<noteq> i) (users s)))"
    using d(3) u by (auto dest: inj_onD)
  have "\<And>r. r \<in> set (users s) \<Longrightarrow> user_id r = i \<Longrightarrow> r = u"
    using d(1) u by (auto dest: inj_onD)
  then have rows: "map (\<lambda>r. if user_id r = i
                  then r\<lparr>username := username u, email := email u, password_hash := password_hash u\<rparr>
                  else r) (users s) = users s"
    by (intro map_idI) auto
  from a have tx: "open_transaction s = None" by simp
  show "updateUser sqlite i updates s = (Inr u, s)"
    unfolding updateUser_sqlite_found [OF tx f] m using nu ne rows by simp
qed

text \<open>An update of the second of three users that supplies nothing, one field as \<^verbatim>\<open>null\<close>.\<close>

theorem updateUser_without_fields_is_identity_witness:
  "consistent three_store \<and> getUserById sqlite 2 three_store = (Inr bob_row, three_store) \<and>
   updateUser sqlite 2
     \<lparr>new_username = Undefined, new_email = Null, new_password_hash = Undefined\<rparr> three_store =
     (Inr bob_row, three_store)"
proof -
  let ?updates = "\<lparr>new_username = Undefined, new_email = Null, new_password_hash = Undefined\<rparr>"
  have absent: "new_username ?updates \<in> {Undefined, Null}"
    "new_email ?updates \<in> {Undefined, Null}" "new_password_hash ?updates \<in> {Undefined, Null}"
    by simp_all
  have hyps: "consistent three_store" "open_transaction three_store = None"
    by (simp_all add: example_defs consistent_def)
  have found: "getUserById sqlite 2 three_store = (Inr bob_row, three_store)"
    by (simp add: example_defs run_defs)
  from hyps found
    updateUser_without_fields_is_identity [OF absent, where s = three_store and i = 2
      and u = bob_row, THEN conjunct2]
  have "updateUser sqlite 2 ?updates three_store = (Inr bob_row, three_store)"
    by simp
  with hyps(1) found show ?thesis by simp
qed

end
